theory Spec2Isabelle
  imports Complex_Main "HOL-Library.Word" "HOL-Library.Sublist"
begin

section \<open>JavaScript values used by the chat page\<close>

subsection \<open>Strings\<close>

text \<open>
  A JavaScript string is a sequence of 16-bit code units. Every character of the literals in
  \<^verbatim>\<open>src/app/alma/page.tsx\<close> lies below U+0100, so a literal is written as an
  8-bit character list and widened unit by unit.
\<close>

type_synonym js_string = "16 word list"

definition lit :: "string \<Rightarrow> js_string" where
  "lit cs = map of_char cs"

text \<open>\<^verbatim>\<open>String.prototype.includes\<close>: the argument occurs as a contiguous run of code units.\<close>

definition includes_str :: "js_string \<Rightarrow> js_string \<Rightarrow> bool" where
  "includes_str str search = sublist search str"

subsection \<open>Numbers\<close>

text \<open>
  A finite JavaScript Number is an IEEE 754 binary64 value, here the rational it denotes.
  Every arithmetic operation returns the exact result rounded to the nearest representable
  value, ties to the even significand: 53 significant bits, the spacing fixed at
  \<open>2 powi (-1074)\<close> below \<open>2 powi (-1022)\<close>. All operands of the page are below
  \<open>2 powi 1024\<close> in magnitude, so no operation overflows to Infinity.
\<close>

text \<open>The nearest integer, a tie going to the even one.\<close>

definition rne :: "rat \<Rightarrow> int" where
  "rne q = (let n = \<lfloor>q\<rfloor>; f = q - of_int n in
     if f < 1 / 2 then n else if 1 / 2 < f then n + 1 else if even n then n else n + 1)"

text \<open>The number of binary digits of a positive integer.\<close>

function bitlen :: "int \<Rightarrow> int" where
  "bitlen n = (if n \<le> 0 then 0 else 1 + bitlen (n div 2))"
  by pat_completeness auto
termination
  by (relation "measure nat") auto

declare bitlen.simps [simp del]

text \<open>
  The exponent \<open>e\<close> with \<open>2 powi e \<le> \<bar>x\<bar> < 2 powi (e + 1)\<close>, for \<open>x \<noteq> 0\<close>: the
  difference of the bit lengths of numerator and denominator, or one less.
\<close>

definition ilog2 :: "rat \<Rightarrow> int" where
  "ilog2 x = (let (p, q) = quotient_of \<bar>x\<bar>;
                  e = bitlen p - bitlen q
              in if 2 powi e \<le> \<bar>x\<bar> then e else e - 1)"

text \<open>The exponent of the binade of \<open>x\<close>, held at \<open>- 1022\<close> for the subnormal range.\<close>

definition expo :: "rat \<Rightarrow> int" where
  "expo x = max (ilog2 x) (- 1022)"

text \<open>The distance between neighbouring doubles in the binade of \<open>x\<close>.\<close>

definition quantum :: "rat \<Rightarrow> rat" where
  "quantum x = 2 powi (expo x - 52)"

text \<open>The double an exact result \<open>x\<close> is rounded to.\<close>

definition fl :: "rat \<Rightarrow> rat" where
  "fl x = of_int (rne (x / quantum x)) * quantum x"

text \<open>The rationals that are doubles: rounding leaves them as they are.\<close>

definition is_double :: "rat \<Rightarrow> bool" where
  "is_double x \<longleftrightarrow> fl x = x"

text \<open>\<^verbatim>\<open>Math.floor\<close>; the integer below a double of this size is a double itself.\<close>

definition Math_floor :: "rat \<Rightarrow> int" where
  "Math_floor x = \<lfloor>x\<rfloor>"

text \<open>
  \<^verbatim>\<open>Number.prototype.toString\<close> on an integral time value: the decimal digits, with a
  leading minus sign for a negative value. (Time values stay below \<open>10 ^ 21\<close> in magnitude,
  where the exponent notation would start.)
\<close>

function digits :: "int \<Rightarrow> js_string" where
  "digits n = (if n < 10 then [of_int (48 + n)] else digits (n div 10) @ [of_int (48 + n mod 10)])"
  by pat_completeness auto
termination
  by (relation "measure nat") auto

declare digits.simps [simp del]

definition toString :: "int \<Rightarrow> js_string" where
  "toString n = (if n < 0 then lit ''-'' @ digits (- n) else digits n)"

text \<open>Reading an array at an index: \<^verbatim>\<open>undefined\<close> (here \<open>None\<close>) outside the array.\<close>

definition array_get :: "'a list \<Rightarrow> int \<Rightarrow> 'a option" where
  "array_get xs i = (if 0 \<le> i \<and> i < int (length xs) then Some (xs ! nat i) else None)"

section \<open>The chat page \<^verbatim>\<open>src/app/alma/page.tsx\<close>\<close>

subsection \<open>Data\<close>

datatype role = user | assistant

record message =
  id_msg :: js_string
  content :: js_string
  role :: role
  timestamp :: int

text \<open>
  What one run of a handler reads from its environment: \<^verbatim>\<open>Date.now()\<close>,
  \<^verbatim>\<open>new Date()\<close> (its time value in milliseconds) and \<^verbatim>\<open>Math.random()\<close>.
\<close>

record env =
  date_now :: int
  new_date :: int
  math_random :: rat

text \<open>
  A timer registered with \<^verbatim>\<open>setTimeout\<close>: the delay passed to it and the
  \<^verbatim>\<open>content\<close> its callback has captured.
\<close>

record timer =
  delay :: rat
  callback_content :: js_string

text \<open>
  The two state cells of the component (\<^verbatim>\<open>useState\<close>), the timers it has registered that
  have not fired yet, and whether the component is still mounted. A call
  \<^verbatim>\<open>setMessages(prev => [...prev, m])\<close> appends \<open>m\<close> to the first cell, a call
  \<^verbatim>\<open>setIsTyping(b)\<close> stores \<open>b\<close> in the second, as long as the component is mounted.
  After the teardown the cells stand for the last state the view had.
\<close>

record session =
  messages :: "message list"
  isTyping :: bool
  timers :: "timer list"
  mounted :: bool

subsection \<open>Initial state\<close>

definition greeting :: js_string where
  "greeting = lit ([CHR 0xA1] @ ''Hola! Soy ALMA, tu asistente de inteligencia artificial. ''
     @ [CHR 0xBF] @ ''En qu'' @ [CHR 0xE9] @ '' puedo ayudarte hoy?'')"

text \<open>The initial values given to \<^verbatim>\<open>useState\<close>; \<open>t\<close> is what \<^verbatim>\<open>new Date()\<close> reads.\<close>

definition AlmaPage :: "int \<Rightarrow> session" where
  "AlmaPage t =
     \<lparr>messages = [\<lparr>id_msg = lit ''1'', content = greeting, role = assistant, timestamp = t\<rparr>],
      isTyping = False, timers = [], mounted = True\<rparr>"

subsection \<open>The response generator\<close>

definition responses :: "js_string \<Rightarrow> js_string list" where
  "responses userInput =
    [lit (''Entiendo tu consulta sobre '' @ [CHR 0x22]) @ userInput
       @ lit ([CHR 0x22] @ ''. Como ALMA, puedo ayudarte a analizar este tema desde diferentes perspectivas.''),
     lit (''Es una pregunta muy interesante. Bas'' @ [CHR 0xE1]
       @ ''ndome en mi conocimiento, puedo decirte que...''),
     lit (''Me parece un tema fascinante. Perm'' @ [CHR 0xED]
       @ ''teme compartir contigo algunos insights sobre '' @ [CHR 0x22]) @ userInput
       @ lit ([CHR 0x22] @ ''.''),
     lit (''Gracias por compartir eso conmigo. Como agente de IA, mi an'' @ [CHR 0xE1]
       @ ''lisis sugiere que...''),
     lit ''Excelente pregunta. Desde mi perspectiva como ALMA, considero que este es un punto muy relevante.'']"

definition closing :: js_string where
  "closing = lit ('' '' @ [CHR 0xBF] @ ''Te gustar'' @ [CHR 0xED] @ ''a que profundice en alg''
     @ [CHR 0xFA] @ ''n aspecto espec'' @ [CHR 0xED] @ ''fico?'')"

text \<open>\<^verbatim>\<open>Math.floor(Math.random() * responses.length)\<close>, for the draw \<open>rnd\<close>.\<close>

definition random_index :: "rat \<Rightarrow> nat \<Rightarrow> int" where
  "random_index rnd n = Math_floor (fl (rnd * of_nat n))"

text \<open>A template literal renders \<^verbatim>\<open>undefined\<close> as the word itself.\<close>

definition generateAlmaResponse :: "rat \<Rightarrow> js_string \<Rightarrow> js_string" where
  "generateAlmaResponse rnd userInput =
     (let rs = responses userInput;
          randomResponse = array_get rs (random_index rnd (length rs))
      in (case randomResponse of Some t \<Rightarrow> t | None \<Rightarrow> lit ''undefined'') @ closing)"

subsection \<open>Sending a message and the deferred reply\<close>

text \<open>
  The handler and the callback are written with the updates they ask for applied, as on a
  mounted component; \<open>commit\<close> below says what the runtime keeps of them.
\<close>

text \<open>\<^verbatim>\<open>1000 + Math.random() * 2000\<close>, the delay handed to \<^verbatim>\<open>setTimeout\<close>.\<close>

definition timeout_delay :: "rat \<Rightarrow> rat" where
  "timeout_delay rnd = fl (1000 + fl (rnd * 2000))"

definition handleSendMessage :: "env \<Rightarrow> js_string \<Rightarrow> session \<Rightarrow> session" where
  "handleSendMessage e c s =
     (let userMessage = \<lparr>id_msg = toString (date_now e), content = c, role = user,
                          timestamp = new_date e\<rparr>
      in s\<lparr>messages := messages s @ [userMessage],
           isTyping := True,
           timers := timers s @ [\<lparr>delay = timeout_delay (math_random e), callback_content = c\<rparr>]\<rparr>)"

text \<open>
  The body of the callback given to \<^verbatim>\<open>setTimeout\<close>, with the two updates it asks for.
  (\<^verbatim>\<open>Date.now() + 1\<close> is exact: a time value is an integer below \<open>2 ^ 53\<close>.)
\<close>

definition timeout_callback :: "env \<Rightarrow> js_string \<Rightarrow> session \<Rightarrow> session" where
  "timeout_callback e c s =
     (let almaResponse = \<lparr>id_msg = toString (date_now e + 1),
                           content = generateAlmaResponse (math_random e) c,
                           role = assistant, timestamp = new_date e\<rparr>
      in s\<lparr>messages := messages s @ [almaResponse], isTyping := False\<rparr>)"

text \<open>
  The \<open>i\<close>-th pending timer fires: it leaves the pending timers and its callback runs on
  the content it has captured. Nothing fires when there is no such timer. Pending timers may
  fire in any order here, which covers the order their delays give.
\<close>

definition fire :: "env \<Rightarrow> nat \<Rightarrow> session \<Rightarrow> session option" where
  "fire e i s =
     (if i < length (timers s)
      then Some (timeout_callback e (callback_content (timers s ! i))
                   (s\<lparr>timers := take i (timers s) @ drop (Suc i) (timers s)\<rparr>))
      else None)"

text \<open>
  The view is torn down. The component registers one effect (lines 29 to 31), which returns
  no cleanup, and never calls \<^verbatim>\<open>clearTimeout\<close>: the registered timers stay.
\<close>

definition unmount :: "session \<Rightarrow> session" where
  "unmount s = s\<lparr>mounted := False\<rparr>"

text \<open>
  What the runtime keeps of the outcome \<open>s'\<close> of a handler or callback that ran in state
  \<open>s\<close>. React applies a state update to a mounted component only: the setter calls made
  after the teardown are dropped and the two cells stay as they were. Timers are the
  browser's, not the component's: they are registered and they fire either way.
\<close>

definition commit :: "session \<Rightarrow> session \<Rightarrow> session" where
  "commit s s' = (if mounted s then s' else s'\<lparr>messages := messages s, isTyping := isTyping s\<rparr>)"

text \<open>The \<^verbatim>\<open>disabled\<close> property the page passes to the chat input (line 108).\<close>

definition ChatInput_disabled :: "session \<Rightarrow> bool" where
  "ChatInput_disabled s = isTyping s"

subsection \<open>Runs of the page\<close>

datatype event = Submit env js_string | Fire env nat | Unmount

fun step :: "event \<Rightarrow> session \<Rightarrow> session option" where
  "step (Submit e c) s = Some (commit s (handleSendMessage e c s))"
| "step (Fire e i) s = map_option (commit s) (fire e i s)"
| "step Unmount s = Some (unmount s)"

fun run :: "event list \<Rightarrow> session \<Rightarrow> session option" where
  "run [] s = Some s"
| "run (ev # evs) s = (case step ev s of None \<Rightarrow> None | Some s' \<Rightarrow> run evs s')"

text \<open>The readings of \<^verbatim>\<open>new Date()\<close> along a run, in the order they are taken.\<close>

fun clock_reads :: "event list \<Rightarrow> int list" where
  "clock_reads [] = []"
| "clock_reads (Submit e c # evs) = new_date e # clock_reads evs"
| "clock_reads (Fire e i # evs) = new_date e # clock_reads evs"
| "clock_reads (Unmount # evs) = clock_reads evs"

section \<open>Properties\<close>

subsection \<open>Rounding to the nearest double is monotone\<close>

lemma bitlen_bounds:
  "0 < n \<Longrightarrow> 0 < bitlen n \<and> 2 ^ nat (bitlen n - 1) \<le> n \<and> n < 2 ^ nat (bitlen n)"
proof (induction n rule: bitlen.induct)
  case (1 n)
  show ?case
  proof (cases "n = 1")
    case True
    have "bitlen 1 = 1" by (simp add: bitlen.simps [of 1] bitlen.simps [of 0])
    with True show ?thesis by simp
  next
    case False
    with "1.prems" have d: "0 < n div 2" by simp
    from "1.prems" have nn: "\<not> n \<le> 0" by simp
    define b where "b = bitlen (n div 2)"
    from "1.IH" [OF nn d] have b: "0 < b" "2 ^ nat (b - 1) \<le> n div 2" "n div 2 < 2 ^ nat b"
      by (simp_all add: b_def)
    have bn: "bitlen n = 1 + b" using nn by (simp add: bitlen.simps [of n] b_def)
    from b(1) have nb: "nat b = Suc (nat (b - 1))" by simp
    have "(2::int) ^ nat b = 2 * 2 ^ nat (b - 1)" by (subst nb) simp
    also have "\<dots> \<le> 2 * (n div 2)" using b(2) by simp
    also have "\<dots> \<le> n" by simp
    finally have lo: "2 ^ nat (bitlen n - 1) \<le> n" by (simp add: bn)
    from b(3) have "n div 2 + 1 \<le> 2 ^ nat b" by simp
    then have "2 * (n div 2 + 1) \<le> 2 * 2 ^ nat b" by simp
    moreover have "n < 2 * (n div 2 + 1)" by simp
    ultimately have "n < 2 * 2 ^ nat b" by simp
    moreover from b(1) have "nat (1 + b) = Suc (nat b)" by simp
    ultimately have hi: "n < 2 ^ nat (bitlen n)" by (simp add: bn)
    from b(1) lo hi show ?thesis by (simp add: bn)
  qed
qed

lemma two_powi_nat: "0 \<le> k \<Longrightarrow> (2::rat) powi k = of_int (2 ^ nat k)"
  by (simp add: power_int_def)

lemma ilog2_bounds:
  assumes "x \<noteq> 0"
  shows "2 powi ilog2 x \<le> \<bar>x\<bar> \<and> \<bar>x\<bar> < 2 powi (ilog2 x + 1)"
proof -
  obtain p q where pq: "quotient_of \<bar>x\<bar> = (p, q)" by force
  then have q: "0 < q" and x: "\<bar>x\<bar> = of_int p / of_int q"
    by (simp_all add: quotient_of_denom_pos quotient_of_div)
  from assms have "0 < \<bar>x\<bar>" by simp
  with x q have p: "0 < p" by (simp add: zero_less_divide_iff)
  define bp bq where "bp = bitlen p" and "bq = bitlen q"
  from bitlen_bounds [OF p] have P: "0 < bp" "2 ^ nat (bp - 1) \<le> p" "p < 2 ^ nat bp"
    by (simp_all add: bp_def)
  from bitlen_bounds [OF q] have Q: "0 < bq" "2 ^ nat (bq - 1) \<le> q" "q < 2 ^ nat bq"
    by (simp_all add: bq_def)
  have P1: "2 powi (bp - 1) \<le> (of_int p :: rat)"
    using P(1,2) by (simp add: two_powi_nat of_int_le_iff [symmetric] del: of_int_le_iff)
  have P2: "(of_int p :: rat) < 2 powi bp"
    using P(1,3) by (simp add: two_powi_nat of_int_less_iff [symmetric] del: of_int_less_iff)
  have Q1: "2 powi (bq - 1) \<le> (of_int q :: rat)"
    using Q(1,2) by (simp add: two_powi_nat of_int_le_iff [symmetric] del: of_int_le_iff)
  have Q2: "(of_int q :: rat) < 2 powi bq"
    using Q(1,3) by (simp add: two_powi_nat of_int_less_iff [symmetric] del: of_int_less_iff)
  have pos: "\<And>k. (0::rat) < 2 powi k" by simp
  have "\<bar>x\<bar> < 2 powi bp / 2 powi (bq - 1)"
    unfolding x using p P2 pos Q1 by (intro frac_less) simp_all
  also have "\<dots> = 2 powi (bp - bq + 1)"
    by (simp add: power_int_diff [symmetric] algebra_simps)
  finally have hi: "\<bar>x\<bar> < 2 powi (bp - bq + 1)" .
  have "2 powi (bp - bq - 1) = (2::rat) powi (bp - 1) / 2 powi bq"
    by (simp add: power_int_diff [symmetric] algebra_simps)
  also have "\<dots> \<le> \<bar>x\<bar>"
    unfolding x using p q P1 Q2 pos by (intro frac_le) simp_all
  finally have lo: "2 powi (bp - bq - 1) \<le> \<bar>x\<bar>" .
  have il: "ilog2 x = (if 2 powi (bp - bq) \<le> \<bar>x\<bar> then bp - bq else bp - bq - 1)"
    by (simp add: ilog2_def pq bp_def bq_def Let_def)
  show ?thesis
  proof (cases "2 powi (bp - bq) \<le> \<bar>x\<bar>")
    case True
    with il hi show ?thesis by simp
  next
    case False
    with il lo show ?thesis by simp
  qed
qed

lemma two_powi_less_iff: "(2::rat) powi m < 2 powi n \<longleftrightarrow> m < n"
proof
  assume l: "(2::rat) powi m < 2 powi n"
  show "m < n"
  proof (rule ccontr)
    assume "\<not> m < n"
    then have "n \<le> m" by simp
    then have "(2::rat) powi n \<le> 2 powi m" by (rule power_int_increasing) simp
    with l show False by simp
  qed
next
  assume "m < n"
  then show "(2::rat) powi m < 2 powi n" by (rule power_int_strict_increasing) simp
qed

lemma two_powi_le_iff: "(2::rat) powi m \<le> 2 powi n \<longleftrightarrow> m \<le> n"
  using two_powi_less_iff [of n m] by (simp add: not_less [symmetric])

lemma two_powi_add: "(2::rat) powi m * 2 powi n = 2 powi (m + n)"
  by (simp add: power_int_add)

lemma ilog2_unique:
  assumes "2 powi e \<le> \<bar>x\<bar>" and "\<bar>x\<bar> < 2 powi (e + 1)"
  shows "ilog2 x = e"
proof -
  from assms(1) have "0 < \<bar>x\<bar>"
    by (rule less_le_trans [rotated]) simp
  then have "x \<noteq> 0" by simp
  from ilog2_bounds [OF this] have b: "2 powi ilog2 x \<le> \<bar>x\<bar>" "\<bar>x\<bar> < 2 powi (ilog2 x + 1)"
    by simp_all
  from b(1) assms(2) have "(2::rat) powi ilog2 x < 2 powi (e + 1)" by simp
  then have 1: "ilog2 x < e + 1" by (simp add: two_powi_less_iff)
  from assms(1) b(2) have "(2::rat) powi e < 2 powi (ilog2 x + 1)" by simp
  then have 2: "e < ilog2 x + 1" by (simp add: two_powi_less_iff)
  from 1 2 show ?thesis by simp
qed


lemma quantum_expo: "quantum x = 2 powi (expo x - 52)"
  by (simp add: quantum_def)

lemma quantum_pos: "0 < quantum x"
  by (simp add: quantum_def)

lemma expo_upper: "0 < x \<Longrightarrow> x < 2 powi (expo x + 1)"
proof -
  assume x: "0 < x"
  then have "x < 2 powi (ilog2 x + 1)" using ilog2_bounds [of x] by simp
  also have "\<dots> \<le> 2 powi (expo x + 1)" by (simp add: two_powi_le_iff expo_def)
  finally show ?thesis .
qed

lemma expo_lower: "0 < x \<Longrightarrow> - 1022 < expo x \<Longrightarrow> 2 powi expo x \<le> x"
proof -
  assume x: "0 < x" and e: "- 1022 < expo x"
  then have "expo x = ilog2 x" by (simp add: expo_def max_def split: if_splits)
  with x ilog2_bounds [of x] show ?thesis by simp
qed

lemma expo_ge: "- 1022 \<le> expo x"
  by (simp add: expo_def)

lemma expo_mono:
  assumes "0 < x" and "x \<le> y"
  shows "expo x \<le> expo y"
proof (rule ccontr)
  assume "\<not> expo x \<le> expo y"
  then have l: "expo y < expo x" by simp
  with expo_ge [of y] have "- 1022 < expo x" by simp
  from expo_lower [OF assms(1) this] assms(2) have "2 powi expo x \<le> y" by simp
  also from assms have "y < 2 powi (expo y + 1)" by (intro expo_upper) simp
  finally have "expo x < expo y + 1" by (simp add: two_powi_less_iff)
  with l show False by simp
qed

lemma rne_of_int: "rne (of_int k) = k"
  by (simp add: rne_def)

lemma rne_bounds: "\<lfloor>q\<rfloor> \<le> rne q \<and> rne q \<le> \<lfloor>q\<rfloor> + 1"
  by (simp add: rne_def Let_def)

lemma rne_mono:
  assumes "q \<le> q'"
  shows "rne q \<le> rne q'"
proof (cases "\<lfloor>q\<rfloor> = \<lfloor>q'\<rfloor>")
  case True
  with assms have "q - of_int \<lfloor>q\<rfloor> \<le> q' - of_int \<lfloor>q'\<rfloor>" by simp
  with True show ?thesis by (auto simp: rne_def Let_def)
next
  case False
  with assms have "\<lfloor>q\<rfloor> < \<lfloor>q'\<rfloor>" using floor_mono [of q q'] by simp
  with rne_bounds [of q] rne_bounds [of q'] show ?thesis by simp
qed

lemma fl_zero: "fl 0 = 0"
  by (simp add: fl_def rne_def)

lemma fl_upper:
  assumes "0 < x"
  shows "fl x \<le> 2 powi (expo x + 1)"
proof -
  have "x / quantum x < 2 powi (expo x + 1) / quantum x"
    using expo_upper [OF assms] quantum_pos [of x] by (simp add: divide_strict_right_mono)
  also have "\<dots> = 2 powi 53"
    by (simp add: quantum_expo power_int_diff [symmetric])
  also have "\<dots> = of_int (2 ^ 53)" by simp
  finally have "x / quantum x \<le> of_int (2 ^ 53)" by simp
  from rne_mono [OF this] have "rne (x / quantum x) \<le> 2 ^ 53" by (simp only: rne_of_int)
  then have "(of_int (rne (x / quantum x)) :: rat) \<le> of_int (2 ^ 53)" by (simp only: of_int_le_iff)
  then have "fl x \<le> of_int (2 ^ 53) * quantum x"
    unfolding fl_def using quantum_pos [of x] by (simp only: mult_le_cancel_right_pos)
  also have "\<dots> = 2 powi 53 * 2 powi (expo x - 52)" by (simp add: quantum_expo)
  also have "\<dots> = 2 powi (53 + (expo x - 52))" by (simp only: two_powi_add)
  also have "53 + (expo x - 52) = expo x + 1" by simp
  finally show ?thesis .
qed

lemma fl_lower:
  assumes "0 < x" and "- 1022 < expo x"
  shows "2 powi expo x \<le> fl x"
proof -
  have "2 powi expo x / quantum x \<le> x / quantum x"
    using expo_lower [OF assms] quantum_pos [of x] by (simp add: divide_right_mono)
  moreover have "2 powi expo x / quantum x = 2 powi 52"
    by (simp add: quantum_expo power_int_diff [symmetric])
  moreover have "(2::rat) powi 52 = of_int (2 ^ 52)" by simp
  ultimately have "of_int (2 ^ 52) \<le> x / quantum x" by simp
  from rne_mono [OF this] have "2 ^ 52 \<le> rne (x / quantum x)" by (simp only: rne_of_int)
  then have "(of_int (2 ^ 52) :: rat) \<le> of_int (rne (x / quantum x))" by (simp only: of_int_le_iff)
  then have "of_int (2 ^ 52) * quantum x \<le> fl x"
    unfolding fl_def using quantum_pos [of x] by (simp only: mult_le_cancel_right_pos)
  moreover have "of_int (2 ^ 52) * quantum x = 2 powi 52 * 2 powi (expo x - 52)"
    by (simp add: quantum_expo)
  moreover have "(2::rat) powi 52 * 2 powi (expo x - 52) = 2 powi (52 + (expo x - 52))"
    by (simp only: two_powi_add)
  moreover have "52 + (expo x - 52) = expo x" by simp
  ultimately show ?thesis by simp
qed

lemma fl_nonneg: "0 \<le> x \<Longrightarrow> 0 \<le> fl x"
proof -
  assume "0 \<le> x"
  then have "of_int 0 \<le> x / quantum x" using quantum_pos [of x] by simp
  from rne_mono [OF this] have "0 \<le> rne (x / quantum x)" by (simp only: rne_of_int)
  then show ?thesis unfolding fl_def using quantum_pos [of x] by simp
qed

lemma fl_mono:
  assumes "0 \<le> x" and "x \<le> y"
  shows "fl x \<le> fl y"
proof (cases "x = 0")
  case True
  with assms fl_nonneg [of y] show ?thesis by (simp add: fl_zero)
next
  case False
  with assms have x: "0 < x" and y: "0 < y" by simp_all
  show ?thesis
  proof (cases "expo x = expo y")
    case True
    then have q: "quantum x = quantum y" by (simp add: quantum_expo)
    from assms(2) quantum_pos [of y] have "x / quantum y \<le> y / quantum y"
      by (simp add: divide_right_mono)
    from rne_mono [OF this] quantum_pos [of y] show ?thesis
      by (simp add: fl_def q)
  next
    case False
    with expo_mono [OF x assms(2)] have l: "expo x < expo y" by simp
    with expo_ge [of x] have "- 1022 < expo y" by simp
    from fl_lower [OF y this] have "2 powi expo y \<le> fl y" .
    moreover from l have "(2::rat) powi (expo x + 1) \<le> 2 powi expo y"
      by (simp add: two_powi_le_iff)
    moreover note fl_upper [OF x]
    ultimately show ?thesis by simp
  qed
qed


lemma double_below_one_grid:
  assumes "is_double r" and "1 / 2 \<le> r" and "r < 1"
  shows "\<exists>k. r = of_int k / 2 ^ 53"
proof -
  have "ilog2 r = - 1" using assms(2,3) by (intro ilog2_unique) simp_all
  then have q: "quantum r = 1 / 2 ^ 53" by (simp add: quantum_def expo_def power_int_minus_divide)
  define k where "k = rne (r / quantum r)"
  from assms(1) have "r = of_int k * quantum r" by (simp add: is_double_def fl_def k_def)
  then have "r = of_int k / 2 ^ 53" by (simp add: q)
  then show ?thesis ..
qed

lemma double_below_one:
  assumes "is_double r" and "r < 1"
  shows "r \<le> 1 - 1 / 2 ^ 53"
proof (cases "1 / 2 \<le> r")
  case True
  from double_below_one_grid [OF assms(1) True assms(2)]
  obtain k where k: "r = of_int k / 2 ^ 53" ..
  with assms(2) have "(of_int k :: rat) < of_int (2 ^ 53)" by simp
  then have "k < 2 ^ 53" by (simp only: of_int_less_iff)
  then have "k \<le> 2 ^ 53 - 1" by simp
  then have "(of_int k :: rat) \<le> of_int (2 ^ 53 - 1)" by (simp only: of_int_le_iff)
  with k show ?thesis by simp
next
  case False
  then show ?thesis by simp
qed

lemma double_below_pred_one:
  assumes "is_double r" and "r < 1 - 1 / 2 ^ 53"
  shows "r \<le> 1 - 1 / 2 ^ 52"
proof (cases "1 / 2 \<le> r")
  case True
  from assms(2) have "r < 1" by simp
  from double_below_one_grid [OF assms(1) True this]
  obtain k where k: "r = of_int k / 2 ^ 53" ..
  with assms(2) have "(of_int k :: rat) < of_int (2 ^ 53 - 1)" by simp
  then have "k < 2 ^ 53 - 1" by (simp only: of_int_less_iff)
  then have "k \<le> 2 ^ 53 - 2" by simp
  then have "(of_int k :: rat) \<le> of_int (2 ^ 53 - 2)" by (simp only: of_int_le_iff)
  with k show ?thesis by simp
next
  case False
  then show ?thesis by simp
qed

lemma fl_1000: "fl 1000 = 1000"
  by code_simp

lemma fl_2000: "fl 2000 = 2000"
  by code_simp

lemma fl_3000: "fl 3000 = 3000"
  by code_simp

lemma fl_top_5: "fl ((1 - 1 / 2 ^ 53) * 5) = 5 - 1 / 2 ^ 50"
  by code_simp

lemma fl_top_2000: "fl ((1 - 1 / 2 ^ 52) * 2000) = 2000 - 1 / 2 ^ 41"
  by code_simp

lemma fl_top_3000: "fl (3000 - 1 / 2 ^ 41) = 3000 - 1 / 2 ^ 41"
  by code_simp


lemma random_index_5:
  assumes "is_double r" and "0 \<le> r" and "r < 1"
  shows "0 \<le> random_index r 5 \<and> random_index r 5 < 5"
proof -
  from double_below_one [OF assms(1,3)] have "r * 5 \<le> (1 - 1 / 2 ^ 53) * 5" by simp
  moreover from assms(2) have n: "0 \<le> r * 5" by simp
  ultimately have "fl (r * 5) \<le> fl ((1 - 1 / 2 ^ 53) * 5)" by (intro fl_mono)
  then have "fl (r * 5) \<le> 5 - 1 / 2 ^ 50" by (simp only: fl_top_5)
  then have "fl (r * 5) < 5" by simp
  moreover from n have "0 \<le> fl (r * 5)" by (rule fl_nonneg)
  ultimately show ?thesis by (simp add: random_index_def Math_floor_def floor_less_iff)
qed

lemma timeout_delay_range:
  assumes "0 \<le> r" and "r < 1"
  shows "1000 \<le> timeout_delay r \<and> timeout_delay r \<le> 3000"
proof -
  from assms have n: "0 \<le> r * 2000" and u: "r * 2000 \<le> 2000" by simp_all
  from fl_mono [OF n u] have a: "fl (r * 2000) \<le> 2000" by (simp add: fl_2000)
  from fl_nonneg [OF n] have b: "0 \<le> fl (r * 2000)" .
  from b have "fl 1000 \<le> fl (1000 + fl (r * 2000))" by (intro fl_mono) simp_all
  moreover from a b have "fl (1000 + fl (r * 2000)) \<le> fl 3000" by (intro fl_mono) simp_all
  ultimately show ?thesis by (simp add: timeout_delay_def fl_1000 fl_3000)
qed

lemma timeout_delay_strict:
  assumes "is_double r" and "0 \<le> r" and "r < 1 - 1 / 2 ^ 53"
  shows "timeout_delay r < 3000"
proof -
  from double_below_pred_one [OF assms(1,3)] have u: "r * 2000 \<le> (1 - 1 / 2 ^ 52) * 2000" by simp
  from assms(2) have n: "0 \<le> r * 2000" by simp
  from fl_mono [OF n u] have a: "fl (r * 2000) \<le> 2000 - 1 / 2 ^ 41" by (simp only: fl_top_2000)
  from fl_nonneg [OF n] have b: "0 \<le> fl (r * 2000)" .
  from a b have "fl (1000 + fl (r * 2000)) \<le> fl (3000 - 1 / 2 ^ 41)" by (intro fl_mono) simp_all
  then have "timeout_delay r \<le> 3000 - 1 / 2 ^ 41" by (simp only: fl_top_3000 timeout_delay_def)
  then show ?thesis by simp
qed

subsection \<open>The response generator\<close>

lemma toString_example: "toString 1700000000000 = lit ''1700000000000''"
  by code_simp

lemma length_responses: "length (responses s) = 5"
  by (simp add: responses_def)

lemma generateAlmaResponse_nth:
  assumes "0 \<le> random_index r 5" and "random_index r 5 < 5"
  shows "generateAlmaResponse r s = responses s ! nat (random_index r 5) @ closing"
  using assms by (simp add: generateAlmaResponse_def Let_def length_responses array_get_def)

lemma sublist_middle: "sublist s (a @ s @ b)"
  by (auto simp: sublist_def)

lemma responses_0: "sublist s (responses s ! 0 @ closing)"
  unfolding responses_def nth_Cons_0 append_assoc by (rule sublist_middle)

lemma responses_2: "sublist s (responses s ! 2 @ closing)"
proof -
  have "responses s ! 2 = lit (''Me parece un tema fascinante. Perm'' @ [CHR 0xED]
       @ ''teme compartir contigo algunos insights sobre '' @ [CHR 0x22]) @ s
       @ lit ([CHR 0x22] @ ''.'')"
    by (simp add: responses_def numeral_2_eq_2)
  then show ?thesis by (simp only: append_assoc sublist_middle)
qed

lemma responses_134:
  "responses s ! 1 = responses s' ! 1 \<and> responses s ! 3 = responses s' ! 3
   \<and> responses s ! 4 = responses s' ! 4"
  by (simp add: responses_def numeral_3_eq_3 eval_nat_numeral)

lemma random_index_zero: "random_index 0 5 = 0"
  by code_simp

lemma random_index_quarter: "random_index (1 / 4) 5 = 1"
  by code_simp

lemma is_double_quarter: "is_double (1 / 4)"
  by code_simp

lemma response_quarter_hola:
  "generateAlmaResponse (1 / 4) (lit ''hola'') = responses (lit ''hola'') ! 1 @ closing"
  using generateAlmaResponse_nth [of "1 / 4" "lit ''hola''"] by (simp add: random_index_quarter)

lemma distinct_responses: "distinct (map (\<lambda>t. t @ closing) (responses s))"
  by (simp add: responses_def lit_def)


subsection \<open>The session\<close>

lemma handleSendMessage_messages:
  "messages (handleSendMessage e c s) =
     messages s @ [\<lparr>id_msg = toString (date_now e), content = c, role = user, timestamp = new_date e\<rparr>]"
  by (simp add: handleSendMessage_def)

lemma timeout_callback_messages:
  "messages (timeout_callback e c s) =
     messages s @ [\<lparr>id_msg = toString (date_now e + 1),
                    content = generateAlmaResponse (math_random e) c,
                    role = assistant, timestamp = new_date e\<rparr>]"
  by (simp add: timeout_callback_def)

lemma fire_messages:
  "fire e i s = Some s' \<Longrightarrow>
   messages s' = messages s @ [\<lparr>id_msg = toString (date_now e + 1),
       content = generateAlmaResponse (math_random e) (callback_content (timers s ! i)),
       role = assistant, timestamp = new_date e\<rparr>]"
  by (auto simp: fire_def timeout_callback_def split: if_splits)

lemma handleSendMessage_isTyping: "isTyping (handleSendMessage e c s) = True"
  by (simp add: handleSendMessage_def)

lemma handleSendMessage_timers:
  "timers (handleSendMessage e c s) =
     timers s @ [\<lparr>delay = timeout_delay (math_random e), callback_content = c\<rparr>]"
  by (simp add: handleSendMessage_def)

lemma fire_last_timer:
  "fire e' (length (timers s)) (handleSendMessage e c s) =
     Some (timeout_callback e' c ((handleSendMessage e c s)\<lparr>timers := timers s\<rparr>))"
  by (simp add: fire_def handleSendMessage_timers nth_append)

lemma handleSendMessage_mounted: "mounted (handleSendMessage e c s) = mounted s"
  by (simp add: handleSendMessage_def)

lemma fire_mounted: "fire e i s = Some s' \<Longrightarrow> mounted s' = mounted s"
  by (auto simp: fire_def timeout_callback_def split: if_splits)

lemma step_messages: "step ev s = Some s' \<Longrightarrow> prefix (messages s) (messages s')"
  by (cases ev; cases "mounted s")
    (auto simp: handleSendMessage_messages unmount_def commit_def dest: fire_messages)

lemma step_unmounted:
  assumes "mounted s = False" and "step ev s = Some s'"
  shows "messages s' = messages s \<and> isTyping s' = isTyping s \<and> mounted s' = False"
  using assms
  by (cases ev) (auto simp: commit_def handleSendMessage_mounted unmount_def dest: fire_mounted)

lemma run_unmounted:
  "mounted s = False \<Longrightarrow> run evs s = Some s' \<Longrightarrow>
   messages s' = messages s \<and> isTyping s' = isTyping s \<and> mounted s' = False"
proof (induction evs arbitrary: s)
  case Nil
  then show ?case by simp
next
  case (Cons ev evs)
  then obtain s1 where s1: "step ev s = Some s1" and r: "run evs s1 = Some s'"
    by (auto split: option.splits)
  from step_unmounted [OF Cons.prems(1) s1]
  have k: "messages s1 = messages s" "isTyping s1 = isTyping s" "mounted s1 = False"
    by simp_all
  from Cons.IH [OF k(3) r] k show ?case by simp
qed

lemma run_messages: "run evs s = Some s' \<Longrightarrow> prefix (messages s) (messages s')"
proof (induction evs arbitrary: s)
  case Nil
  then show ?case by simp
next
  case (Cons ev evs)
  then obtain s1 where s1: "step ev s = Some s1" and r: "run evs s1 = Some s'"
    by (auto split: option.splits)
  from step_messages[OF s1] Cons.IH[OF r] show ?case
    by (rule prefix_order.trans)
qed

lemma prefix_nth: "prefix xs ys \<Longrightarrow> j < length xs \<Longrightarrow> ys ! j = xs ! j"
  by (auto simp: prefix_def nth_append)

lemma sorted_drop_middle: "sorted (xs @ t # ys) \<Longrightarrow> sorted (xs @ ys)"
  by (auto simp: sorted_append)

lemma step_sorted:
  assumes "step ev s = Some s'"
    and "sorted (map timestamp (messages s) @ clock_reads (ev # evs))"
  shows "sorted (map timestamp (messages s') @ clock_reads evs)"
proof (cases "mounted s")
  case True
  with assms(1)
  have "map timestamp (messages s') @ clock_reads evs
      = map timestamp (messages s) @ clock_reads (ev # evs)"
    by (cases ev) (auto simp: handleSendMessage_messages unmount_def commit_def dest: fire_messages)
  with assms(2) show ?thesis by simp
next
  case False
  then have "mounted s = False" by simp
  from step_unmounted [OF this assms(1)] have m: "messages s' = messages s" by simp
  from assms(2) show ?thesis
    by (cases ev) (auto simp: m dest: sorted_drop_middle)
qed

lemma run_sorted:
  "run evs s = Some s' \<Longrightarrow> sorted (map timestamp (messages s) @ clock_reads evs) \<Longrightarrow>
   sorted (map timestamp (messages s'))"
proof (induction evs arbitrary: s)
  case Nil
  then show ?case by simp
next
  case (Cons ev evs)
  then obtain s1 where s1: "step ev s = Some s1" and r: "run evs s1 = Some s'"
    by (auto split: option.splits)
  from step_sorted [OF s1 Cons.prems(2)]
  have "sorted (map timestamp (messages s1) @ clock_reads evs)" .
  with Cons.IH[OF r] show ?case .
qed

subsection \<open>Claim C1\<close>

text \<open>
  Claim C1. From the idle state (\<open>isTyping\<close> false), \<^verbatim>\<open>submit(s)\<close>, that is
  \<open>handleSendMessage\<close>, appends exactly one user message whose content is \<open>s\<close>, sets
  \<open>isTyping\<close> to true and schedules exactly one callback; when that callback fires it
  appends exactly one assistant message and sets \<open>isTyping\<close> back to false. So
  \<open>isTyping\<close> is false before, true between the two appends and false after.
\<close>

theorem submit_then_reply:
  assumes "isTyping s = False"
  shows "messages (handleSendMessage e c s) =
           messages s @ [\<lparr>id_msg = toString (date_now e), content = c, role = user,
                          timestamp = new_date e\<rparr>]
       \<and> isTyping (handleSendMessage e c s) = True
       \<and> timers (handleSendMessage e c s) =
           timers s @ [\<lparr>delay = timeout_delay (math_random e), callback_content = c\<rparr>]
       \<and> (\<exists>s'. fire e' (length (timers s)) (handleSendMessage e c s) = Some s'
             \<and> messages s' =
                 messages (handleSendMessage e c s)
                   @ [\<lparr>id_msg = toString (date_now e' + 1),
                        content = generateAlmaResponse (math_random e') c,
                        role = assistant, timestamp = new_date e'\<rparr>]
             \<and> isTyping s' = False
             \<and> timers s' = timers s)"
  by (simp add: fire_last_timer handleSendMessage_messages handleSendMessage_isTyping
      handleSendMessage_timers timeout_callback_def)

text \<open>The same on the initial state, for the input \<^verbatim>\<open>hola\<close>.\<close>

theorem submit_then_reply_witness:
  "isTyping (AlmaPage 0) = False
   \<and> isTyping (handleSendMessage \<lparr>date_now = 1000, new_date = 1000, math_random = 0\<rparr>
         (lit ''hola'') (AlmaPage 0)) = True
   \<and> (\<exists>s'. fire \<lparr>date_now = 2500, new_date = 2500, math_random = 1 / 2\<rparr> 0
               (handleSendMessage \<lparr>date_now = 1000, new_date = 1000, math_random = 0\<rparr>
                  (lit ''hola'') (AlmaPage 0)) = Some s'
             \<and> length (messages s') = 3 \<and> isTyping s' = False \<and> timers s' = [])"
  using submit_then_reply [of "AlmaPage 0"
      "\<lparr>date_now = 1000, new_date = 1000, math_random = 0\<rparr>" "lit ''hola''"
      "\<lparr>date_now = 2500, new_date = 2500, math_random = 1 / 2\<rparr>"]
  by (auto simp: AlmaPage_def)

subsection \<open>Claim C2\<close>

text \<open>
  Claim C2, as the code has it. \<open>handleSendMessage\<close> has no guard of its own: invoked
  while \<open>isTyping\<close> is true it still appends one user message with the given content
  behind the messages already there, leaves \<open>isTyping\<close> true and schedules one more
  callback. What the page does while \<open>isTyping\<close> is true is pass
  \<^verbatim>\<open>disabled = true\<close> to the chat input: keeping the submit away is left to that caller.
\<close>

theorem submit_while_typing_appends:
  assumes "isTyping s = True"
  shows "ChatInput_disabled s = True
       \<and> messages (handleSendMessage e c s) =
           messages s @ [\<lparr>id_msg = toString (date_now e), content = c, role = user,
                          timestamp = new_date e\<rparr>]
       \<and> isTyping (handleSendMessage e c s) = True
       \<and> timers (handleSendMessage e c s) =
           timers s @ [\<lparr>delay = timeout_delay (math_random e), callback_content = c\<rparr>]"
  using assms
  by (simp add: ChatInput_disabled_def handleSendMessage_messages handleSendMessage_isTyping
      handleSendMessage_timers)

text \<open>The same for a second submit right after a first one.\<close>

theorem submit_while_typing_appends_witness:
  "isTyping (handleSendMessage \<lparr>date_now = 1000, new_date = 1000, math_random = 0\<rparr>
      (lit ''hola'') (AlmaPage 0)) = True
   \<and> length (messages (handleSendMessage \<lparr>date_now = 1200, new_date = 1200, math_random = 0\<rparr>
        (lit ''otra'')
        (handleSendMessage \<lparr>date_now = 1000, new_date = 1000, math_random = 0\<rparr>
           (lit ''hola'') (AlmaPage 0)))) = 3
   \<and> length (timers (handleSendMessage \<lparr>date_now = 1200, new_date = 1200, math_random = 0\<rparr>
        (lit ''otra'')
        (handleSendMessage \<lparr>date_now = 1000, new_date = 1000, math_random = 0\<rparr>
           (lit ''hola'') (AlmaPage 0)))) = 2"
  using submit_while_typing_appends [of
      "handleSendMessage \<lparr>date_now = 1000, new_date = 1000, math_random = 0\<rparr>
         (lit ''hola'') (AlmaPage 0)"
      "\<lparr>date_now = 1200, new_date = 1200, math_random = 0\<rparr>" "lit ''otra''"]
  by (simp add: handleSendMessage_messages handleSendMessage_isTyping handleSendMessage_timers
      AlmaPage_def)

text \<open>
  Claim C2 says that a submit while \<open>isTyping\<close> is true leaves \<open>messages\<close> as they
  were. \<open>handleSendMessage\<close> does not read \<open>isTyping\<close>: after a first submit
  \<open>isTyping\<close> is true, and a second submit changes \<open>messages\<close>.
\<close>

theorem submit_while_typing_counterexample:
  "isTyping (handleSendMessage \<lparr>date_now = 1000, new_date = 1000, math_random = 0\<rparr>
      (lit ''hola'') (AlmaPage 0)) = True
   \<and> messages (handleSendMessage \<lparr>date_now = 1200, new_date = 1200, math_random = 0\<rparr>
        (lit ''otra'')
        (handleSendMessage \<lparr>date_now = 1000, new_date = 1000, math_random = 0\<rparr>
           (lit ''hola'') (AlmaPage 0)))
     \<noteq> messages (handleSendMessage \<lparr>date_now = 1000, new_date = 1000, math_random = 0\<rparr>
           (lit ''hola'') (AlmaPage 0))"
  by (simp add: handleSendMessage_def)

subsection \<open>Claim C3\<close>

text \<open>
  Claim C3, as the code has it. Only the first and the third template interpolate the input:
  when the random source selects one of them (index 0 or 2) the output contains \<open>s\<close> as a
  substring. The second, fourth and fifth template have no slot: when one of them is selected
  (index 1, 3 or 4) the output is the same for every input.
\<close>

theorem response_contains_input:
  "(random_index r 5 = 0 \<or> random_index r 5 = 2 \<longrightarrow> includes_str (generateAlmaResponse r s) s)
   \<and> (random_index r 5 = 1 \<or> random_index r 5 = 3 \<or> random_index r 5 = 4 \<longrightarrow>
        generateAlmaResponse r s = generateAlmaResponse r s')"
proof (intro conjI impI)
  assume "random_index r 5 = 0 \<or> random_index r 5 = 2"
  then show "includes_str (generateAlmaResponse r s) s"
    using responses_0 [of s] responses_2 [of s] generateAlmaResponse_nth [of r s]
    by (auto simp: includes_str_def)
next
  assume "random_index r 5 = 1 \<or> random_index r 5 = 3 \<or> random_index r 5 = 4"
  then show "generateAlmaResponse r s = generateAlmaResponse r s'"
    using responses_134 [of s s'] generateAlmaResponse_nth [of r s] generateAlmaResponse_nth [of r s']
    by auto
qed

text \<open>The same at the draws \<open>0\<close> (first template) and \<open>1 / 4\<close> (second template).\<close>

theorem response_contains_input_witness:
  "random_index 0 5 = 0
   \<and> includes_str (generateAlmaResponse 0 (lit ''hola'')) (lit ''hola'')
   \<and> random_index (1 / 4) 5 = 1
   \<and> generateAlmaResponse (1 / 4) (lit ''hola'') = generateAlmaResponse (1 / 4) []"
  using response_contains_input [of 0 "lit ''hola''"]
    response_contains_input [of "1 / 4" "lit ''hola''" "[]"]
  by (simp add: random_index_zero random_index_quarter)

text \<open>
  Claim C3 says that the reply contains the input for every choice of the random source.
  At the draw \<open>1 / 4\<close> the second template is selected, which has no slot for the input: the
  reply to \<^verbatim>\<open>hola\<close> does not contain \<^verbatim>\<open>hola\<close>.
\<close>

theorem response_contains_input_counterexample:
  "is_double (1 / 4) \<and> (0::rat) \<le> 1 / 4 \<and> (1 / 4 :: rat) < 1
   \<and> random_index (1 / 4) 5 = 1
   \<and> \<not> includes_str (generateAlmaResponse (1 / 4) (lit ''hola'')) (lit ''hola'')"
proof -
  have "\<not> sublist (lit ''hola'') (responses (lit ''hola'') ! 1 @ closing)"
    by (simp add: responses_def closing_def lit_def sublist_code)
  then show ?thesis
    by (simp add: includes_str_def response_quarter_hola is_double_quarter random_index_quarter)
qed

subsection \<open>Claim C4\<close>

text \<open>
  Claim C4, as the code has it. When the view is destroyed after \<^verbatim>\<open>submit(s)\<close> and before
  the deferred callback fires, the callback is not suppressed: the teardown leaves every
  pending timer in place, and such a timer still fires and runs its callback. The updates that
  callback asks for reach an unmounted component and are dropped: whatever happens after the
  teardown, no assistant message is appended and \<open>messages\<close> and \<open>isTyping\<close> stay as
  they were.
\<close>

theorem unmount_keeps_timer_drops_updates:
  assumes "i < length (timers s)" and "run evs (unmount s) = Some s'"
  shows "timers (unmount s) = timers s
       \<and> fire e i (unmount s)
           = Some (timeout_callback e (callback_content (timers s ! i))
               ((unmount s)\<lparr>timers := take i (timers s) @ drop (Suc i) (timers s)\<rparr>))
       \<and> step (Fire e i) (unmount s)
           = Some ((unmount s)\<lparr>timers := take i (timers s) @ drop (Suc i) (timers s)\<rparr>)
       \<and> messages s' = messages s \<and> isTyping s' = isTyping s \<and> mounted s' = False"
proof -
  have u: "mounted (unmount s) = False" by (simp add: unmount_def)
  from run_unmounted [OF u assms(2)]
  have "messages s' = messages s \<and> isTyping s' = isTyping s \<and> mounted s' = False"
    by (simp add: unmount_def)
  moreover have "timers (unmount s) = timers s" by (simp add: unmount_def)
  moreover from assms(1) have "fire e i (unmount s)
      = Some (timeout_callback e (callback_content (timers s ! i))
          ((unmount s)\<lparr>timers := take i (timers s) @ drop (Suc i) (timers s)\<rparr>))"
    by (simp add: fire_def unmount_def)
  moreover from assms(1) have "step (Fire e i) (unmount s)
      = Some ((unmount s)\<lparr>timers := take i (timers s) @ drop (Suc i) (timers s)\<rparr>)"
    by (simp add: fire_def unmount_def commit_def timeout_callback_def)
  ultimately show ?thesis by simp
qed

text \<open>
  The same for \<^verbatim>\<open>submit("hola")\<close> on the initial state, the teardown, and then the timer
  firing: the two messages and the typing flag of the moment of the teardown are still there.
\<close>

theorem unmount_keeps_timer_drops_updates_witness:
  "0 < length (timers (handleSendMessage \<lparr>date_now = 1000, new_date = 1000, math_random = 0\<rparr>
      (lit ''hola'') (AlmaPage 0)))
   \<and> run [Fire \<lparr>date_now = 2500, new_date = 2500, math_random = 1 / 2\<rparr> 0]
        (unmount (handleSendMessage \<lparr>date_now = 1000, new_date = 1000, math_random = 0\<rparr>
           (lit ''hola'') (AlmaPage 0)))
      = Some ((unmount (handleSendMessage \<lparr>date_now = 1000, new_date = 1000, math_random = 0\<rparr>
           (lit ''hola'') (AlmaPage 0)))\<lparr>timers := []\<rparr>)
   \<and> length (messages ((unmount (handleSendMessage \<lparr>date_now = 1000, new_date = 1000, math_random = 0\<rparr>
           (lit ''hola'') (AlmaPage 0)))\<lparr>timers := []\<rparr>)) = 2
   \<and> isTyping ((unmount (handleSendMessage \<lparr>date_now = 1000, new_date = 1000, math_random = 0\<rparr>
           (lit ''hola'') (AlmaPage 0)))\<lparr>timers := []\<rparr>) = True"
proof -
  have p: "0 < length (timers (handleSendMessage \<lparr>date_now = 1000, new_date = 1000, math_random = 0\<rparr>
      (lit ''hola'') (AlmaPage 0)))"
    by (simp add: handleSendMessage_timers)
  have r: "run [Fire \<lparr>date_now = 2500, new_date = 2500, math_random = 1 / 2\<rparr> 0]
        (unmount (handleSendMessage \<lparr>date_now = 1000, new_date = 1000, math_random = 0\<rparr>
           (lit ''hola'') (AlmaPage 0)))
      = Some ((unmount (handleSendMessage \<lparr>date_now = 1000, new_date = 1000, math_random = 0\<rparr>
           (lit ''hola'') (AlmaPage 0)))\<lparr>timers := []\<rparr>)"
    by (simp add: fire_def unmount_def commit_def timeout_callback_def handleSendMessage_timers
        AlmaPage_def)
  have l: "length (messages (handleSendMessage \<lparr>date_now = 1000, new_date = 1000, math_random = 0\<rparr>
      (lit ''hola'') (AlmaPage 0))) = 2"
    by (simp add: handleSendMessage_messages AlmaPage_def)
  have t: "isTyping (handleSendMessage \<lparr>date_now = 1000, new_date = 1000, math_random = 0\<rparr>
      (lit ''hola'') (AlmaPage 0)) = True"
    by (simp add: handleSendMessage_isTyping)
  from unmount_keeps_timer_drops_updates
    [OF p r, of "\<lparr>date_now = 2500, new_date = 2500, math_random = 1 / 2\<rparr>"] p r l t
  show ?thesis by simp
qed

text \<open>
  Claim C4 says that a callback still pending when the view is destroyed is suppressed. The
  page cancels nothing: after \<^verbatim>\<open>submit("hola")\<close> and the teardown the timer is still
  pending with the content it has captured, it fires, and its callback runs; the timer is
  used up by that. What the callback asks for is dropped only afterwards, by the runtime.
\<close>

theorem unmount_callback_counterexample:
  "mounted (unmount (handleSendMessage \<lparr>date_now = 1000, new_date = 1000, math_random = 0\<rparr>
      (lit ''hola'') (AlmaPage 0))) = False
   \<and> map callback_content (timers (unmount (handleSendMessage \<lparr>date_now = 1000, new_date = 1000, math_random = 0\<rparr>
        (lit ''hola'') (AlmaPage 0)))) = [lit ''hola'']
   \<and> fire \<lparr>date_now = 2500, new_date = 2500, math_random = 1 / 2\<rparr> 0
        (unmount (handleSendMessage \<lparr>date_now = 1000, new_date = 1000, math_random = 0\<rparr>
           (lit ''hola'') (AlmaPage 0)))
      = Some (timeout_callback \<lparr>date_now = 2500, new_date = 2500, math_random = 1 / 2\<rparr> (lit ''hola'')
          ((unmount (handleSendMessage \<lparr>date_now = 1000, new_date = 1000, math_random = 0\<rparr>
             (lit ''hola'') (AlmaPage 0)))\<lparr>timers := []\<rparr>))
   \<and> step (Fire \<lparr>date_now = 2500, new_date = 2500, math_random = 1 / 2\<rparr> 0)
        (unmount (handleSendMessage \<lparr>date_now = 1000, new_date = 1000, math_random = 0\<rparr>
           (lit ''hola'') (AlmaPage 0))) \<noteq> None
   \<and> timers (the (step (Fire \<lparr>date_now = 2500, new_date = 2500, math_random = 1 / 2\<rparr> 0)
        (unmount (handleSendMessage \<lparr>date_now = 1000, new_date = 1000, math_random = 0\<rparr>
           (lit ''hola'') (AlmaPage 0))))) = []"
  by (simp add: fire_def unmount_def commit_def handleSendMessage_timers timeout_callback_def
      AlmaPage_def)

subsection \<open>Claim C5\<close>

text \<open>
  Claim C5. For every input string and every double \<open>r\<close> with \<open>0 \<le> r < 1\<close> drawn from
  the random source, the output of the response generator is one of exactly five strings:
  the five templates filled with the input, each followed by the closing sentence.
\<close>

theorem response_in_closed_set:
  assumes "is_double r" and "0 \<le> r" and "r < 1"
  shows "generateAlmaResponse r s \<in> set (map (\<lambda>t. t @ closing) (responses s))
       \<and> length (responses s) = 5
       \<and> card (set (map (\<lambda>t. t @ closing) (responses s))) = 5"
proof -
  from random_index_5 [OF assms] have i: "0 \<le> random_index r 5" "random_index r 5 < 5"
    by simp_all
  then have "nat (random_index r 5) < length (responses s)" by (simp add: length_responses)
  then have "responses s ! nat (random_index r 5) \<in> set (responses s)" by (rule nth_mem)
  with generateAlmaResponse_nth [OF i] have "generateAlmaResponse r s \<in> set (map (\<lambda>t. t @ closing) (responses s))"
    by simp
  moreover from distinct_card [OF distinct_responses [of s]]
  have "card (set (map (\<lambda>t. t @ closing) (responses s))) = 5" by (simp add: length_responses)
  ultimately show ?thesis by (simp add: length_responses)
qed

text \<open>The same at the draw \<open>1 / 4\<close> and the input \<^verbatim>\<open>hola\<close>.\<close>

theorem response_in_closed_set_witness:
  "is_double (1 / 4) \<and> (0::rat) \<le> 1 / 4 \<and> (1 / 4 :: rat) < 1
   \<and> generateAlmaResponse (1 / 4) (lit ''hola'')
       \<in> set (map (\<lambda>t. t @ closing) (responses (lit ''hola'')))"
proof -
  have n: "(0::rat) \<le> 1 / 4" and l: "(1 / 4 :: rat) < 1" by simp_all
  from response_in_closed_set [OF is_double_quarter n l, of "lit ''hola''"] is_double_quarter
  show ?thesis by simp
qed

subsection \<open>Claim C6\<close>

text \<open>
  Claim C6, as the code has it. For every double \<open>r\<close> with \<open>0 \<le> r < 1\<close> the delay
  \<^verbatim>\<open>1000 + r * 2000\<close>, computed in double arithmetic, satisfies
  \<open>1000 \<le> delay \<le> 3000\<close>, and \<open>delay < 3000\<close> for every such \<open>r\<close> but the
  largest double below one, \<open>1 - 1 / 2 ^ 53\<close>.
\<close>

theorem timeout_delay_bounds:
  assumes "is_double r" and "0 \<le> r" and "r < 1"
  shows "1000 \<le> timeout_delay r \<and> timeout_delay r \<le> 3000
       \<and> (r \<noteq> 1 - 1 / 2 ^ 53 \<longrightarrow> timeout_delay r < 3000)"
proof -
  from double_below_one [OF assms(1,3)] have "r \<noteq> 1 - 1 / 2 ^ 53 \<longrightarrow> r < 1 - 1 / 2 ^ 53" by simp
  with timeout_delay_range [OF assms(2,3)] timeout_delay_strict [OF assms(1,2)] show ?thesis
    by blast
qed

text \<open>The same at \<open>r = 1 / 2\<close>, where the delay is 2000.\<close>

theorem timeout_delay_bounds_witness:
  "is_double (1 / 2) \<and> (0::rat) \<le> 1 / 2 \<and> (1 / 2 :: rat) < 1
   \<and> 1000 \<le> timeout_delay (1 / 2) \<and> timeout_delay (1 / 2) < 3000"
proof -
  have d: "is_double (1 / 2)" by code_simp
  have n: "(0::rat) \<le> 1 / 2" and l: "(1 / 2 :: rat) < 1" by simp_all
  have "(1 / 2 :: rat) \<noteq> 1 - 1 / 2 ^ 53" by simp
  with timeout_delay_bounds [OF d n l] d show ?thesis by simp
qed

text \<open>
  Claim C6 says \<open>delay < 3000\<close> for every draw in \<open>[0, 1)\<close>. At the largest double
  below one the product \<^verbatim>\<open>r * 2000\<close> rounds to \<open>2000 - 1 / 2 ^ 42\<close> and the sum, half
  way between two doubles, rounds to the even one: the delay is exactly 3000.
\<close>

theorem timeout_delay_counterexample:
  "is_double (1 - 1 / 2 ^ 53) \<and> (0::rat) \<le> 1 - 1 / 2 ^ 53 \<and> (1 - 1 / 2 ^ 53 :: rat) < 1
   \<and> timeout_delay (1 - 1 / 2 ^ 53) = 3000
   \<and> \<not> timeout_delay (1 - 1 / 2 ^ 53) < 3000"
proof -
  have d: "is_double (1 - 1 / 2 ^ 53)" by code_simp
  have t: "timeout_delay (1 - 1 / 2 ^ 53) = 3000" by code_simp
  from d t show ?thesis by simp
qed

subsection \<open>Claim C7\<close>

text \<open>
  Claim C7, as the code has it. In every state reached from the initial state by submits,
  firing timers and teardown, the messages are in chronological order,
  \<open>timestamp (messages ! i) \<le> timestamp (messages ! (i + 1))\<close> wherever both exist,
  provided the successive readings of \<^verbatim>\<open>new Date()\<close> never decrease.
\<close>

theorem messages_chronological:
  assumes "sorted (t0 # clock_reads evs)" and "run evs (AlmaPage t0) = Some s"
  shows "\<forall>i. Suc i < length (messages s) \<longrightarrow>
           timestamp (messages s ! i) \<le> timestamp (messages s ! Suc i)"
proof -
  have "map timestamp (messages (AlmaPage t0)) = [t0]" by (simp add: AlmaPage_def)
  with assms(1) run_sorted[OF assms(2)] have "sorted (map timestamp (messages s))" by simp
  then show ?thesis
    by (auto simp: sorted_iff_nth_Suc)
qed

text \<open>The same for a submit at time 1000 answered at time 2500, on a page created at time 0.\<close>

theorem messages_chronological_witness:
  "sorted (0 # clock_reads
      [Submit \<lparr>date_now = 1000, new_date = 1000, math_random = 0\<rparr> (lit ''hola''),
       Fire \<lparr>date_now = 2500, new_date = 2500, math_random = 1 / 2\<rparr> 0])
   \<and> run [Submit \<lparr>date_now = 1000, new_date = 1000, math_random = 0\<rparr> (lit ''hola''),
          Fire \<lparr>date_now = 2500, new_date = 2500, math_random = 1 / 2\<rparr> 0] (AlmaPage 0)
       = Some (timeout_callback \<lparr>date_now = 2500, new_date = 2500, math_random = 1 / 2\<rparr> (lit ''hola'')
           ((handleSendMessage \<lparr>date_now = 1000, new_date = 1000, math_random = 0\<rparr>
               (lit ''hola'') (AlmaPage 0))\<lparr>timers := []\<rparr>))
   \<and> map timestamp (messages (timeout_callback
         \<lparr>date_now = 2500, new_date = 2500, math_random = 1 / 2\<rparr> (lit ''hola'')
           ((handleSendMessage \<lparr>date_now = 1000, new_date = 1000, math_random = 0\<rparr>
               (lit ''hola'') (AlmaPage 0))\<lparr>timers := []\<rparr>))) = [0, 1000, 2500]
   \<and> timestamp (messages (timeout_callback
         \<lparr>date_now = 2500, new_date = 2500, math_random = 1 / 2\<rparr> (lit ''hola'')
           ((handleSendMessage \<lparr>date_now = 1000, new_date = 1000, math_random = 0\<rparr>
               (lit ''hola'') (AlmaPage 0))\<lparr>timers := []\<rparr>)) ! 1)
       \<le> timestamp (messages (timeout_callback
         \<lparr>date_now = 2500, new_date = 2500, math_random = 1 / 2\<rparr> (lit ''hola'')
           ((handleSendMessage \<lparr>date_now = 1000, new_date = 1000, math_random = 0\<rparr>
               (lit ''hola'') (AlmaPage 0))\<lparr>timers := []\<rparr>)) ! Suc 1)"
proof -
  have s: "sorted (0 # clock_reads
      [Submit \<lparr>date_now = 1000, new_date = 1000, math_random = 0\<rparr> (lit ''hola''),
       Fire \<lparr>date_now = 2500, new_date = 2500, math_random = 1 / 2\<rparr> 0])"
    by simp
  have r: "run [Submit \<lparr>date_now = 1000, new_date = 1000, math_random = 0\<rparr> (lit ''hola''),
          Fire \<lparr>date_now = 2500, new_date = 2500, math_random = 1 / 2\<rparr> 0] (AlmaPage 0)
       = Some (timeout_callback \<lparr>date_now = 2500, new_date = 2500, math_random = 1 / 2\<rparr> (lit ''hola'')
           ((handleSendMessage \<lparr>date_now = 1000, new_date = 1000, math_random = 0\<rparr>
               (lit ''hola'') (AlmaPage 0))\<lparr>timers := []\<rparr>))"
    by (simp add: fire_def handleSendMessage_timers handleSendMessage_mounted commit_def
        AlmaPage_def)
  from messages_chronological [OF s r, THEN spec, of 1] s r show ?thesis
    by (simp add: timeout_callback_messages handleSendMessage_messages AlmaPage_def)
qed

text \<open>
  Claim C7 says that the messages are in chronological order in every reachable state. The
  timestamps are readings of the wall clock (\<^verbatim>\<open>new Date()\<close>), which the page does not
  order: with the greeting created at clock reading 1000 and a submit at reading 999 (the
  clock having been set back in between), the second message carries the smaller timestamp.
\<close>

theorem messages_chronological_counterexample:
  "Some (handleSendMessage \<lparr>date_now = 999, new_date = 999, math_random = 0\<rparr>
      (lit ''hola'') (AlmaPage 1000))
     = run [Submit \<lparr>date_now = 999, new_date = 999, math_random = 0\<rparr> (lit ''hola'')] (AlmaPage 1000)
   \<and> Suc 0 < length (messages (handleSendMessage \<lparr>date_now = 999, new_date = 999, math_random = 0\<rparr>
      (lit ''hola'') (AlmaPage 1000)))
   \<and> \<not> timestamp (messages (handleSendMessage \<lparr>date_now = 999, new_date = 999, math_random = 0\<rparr>
           (lit ''hola'') (AlmaPage 1000)) ! 0)
       \<le> timestamp (messages (handleSendMessage \<lparr>date_now = 999, new_date = 999, math_random = 0\<rparr>
           (lit ''hola'') (AlmaPage 1000)) ! Suc 0)"
  by (simp add: handleSendMessage_def commit_def AlmaPage_def)

subsection \<open>Claim C8\<close>

text \<open>
  Claim C8. The message store is append-only. A submit and a firing callback each leave the
  messages already present as they are and add exactly one message at the end; along any run
  the earlier list stays a prefix of the later one, so every message keeps its content, role,
  id, timestamp and position.
\<close>

theorem messages_append_only:
  "(\<exists>m. messages (handleSendMessage e c s) = messages s @ [m])
   \<and> (\<forall>s'. fire e i s = Some s' \<longrightarrow> (\<exists>m. messages s' = messages s @ [m]))
   \<and> (\<forall>s'. run evs s = Some s' \<longrightarrow>
         prefix (messages s) (messages s')
         \<and> (\<forall>j<length (messages s). messages s' ! j = messages s ! j))"
  by (auto simp: handleSendMessage_messages run_messages prefix_nth dest: fire_messages)

text \<open>The same for a submit and its reply on the initial state.\<close>

theorem messages_append_only_witness:
  "run [Submit \<lparr>date_now = 1000, new_date = 1000, math_random = 0\<rparr> (lit ''hola''),
          Fire \<lparr>date_now = 2500, new_date = 2500, math_random = 1 / 2\<rparr> 0] (AlmaPage 0)
       = Some (timeout_callback \<lparr>date_now = 2500, new_date = 2500, math_random = 1 / 2\<rparr> (lit ''hola'')
           ((handleSendMessage \<lparr>date_now = 1000, new_date = 1000, math_random = 0\<rparr>
               (lit ''hola'') (AlmaPage 0))\<lparr>timers := []\<rparr>))
   \<and> prefix (messages (AlmaPage 0)) (messages (timeout_callback
         \<lparr>date_now = 2500, new_date = 2500, math_random = 1 / 2\<rparr> (lit ''hola'')
           ((handleSendMessage \<lparr>date_now = 1000, new_date = 1000, math_random = 0\<rparr>
               (lit ''hola'') (AlmaPage 0))\<lparr>timers := []\<rparr>)))
   \<and> messages (timeout_callback
         \<lparr>date_now = 2500, new_date = 2500, math_random = 1 / 2\<rparr> (lit ''hola'')
           ((handleSendMessage \<lparr>date_now = 1000, new_date = 1000, math_random = 0\<rparr>
               (lit ''hola'') (AlmaPage 0))\<lparr>timers := []\<rparr>)) ! 0 = messages (AlmaPage 0) ! 0"
proof -
  have r: "run [Submit \<lparr>date_now = 1000, new_date = 1000, math_random = 0\<rparr> (lit ''hola''),
          Fire \<lparr>date_now = 2500, new_date = 2500, math_random = 1 / 2\<rparr> 0] (AlmaPage 0)
       = Some (timeout_callback \<lparr>date_now = 2500, new_date = 2500, math_random = 1 / 2\<rparr> (lit ''hola'')
           ((handleSendMessage \<lparr>date_now = 1000, new_date = 1000, math_random = 0\<rparr>
               (lit ''hola'') (AlmaPage 0))\<lparr>timers := []\<rparr>))"
    by (simp add: fire_def handleSendMessage_timers handleSendMessage_mounted commit_def
        AlmaPage_def)
  have l: "0 < length (messages (AlmaPage 0))" by (simp add: AlmaPage_def)
  from messages_append_only [where s = "AlmaPage 0" and evs =
      "[Submit \<lparr>date_now = 1000, new_date = 1000, math_random = 0\<rparr> (lit ''hola''),
        Fire \<lparr>date_now = 2500, new_date = 2500, math_random = 1 / 2\<rparr> 0]"] r l
  show ?thesis by blast
qed

subsection \<open>Claim C9\<close>

text \<open>
  Claim C9. The initial session state holds exactly one message, the greeting with role
  assistant, and \<open>isTyping\<close> is false.
\<close>

theorem initial_state_greeting:
  "messages (AlmaPage t) = [\<lparr>id_msg = lit ''1'', content = greeting, role = assistant, timestamp = t\<rparr>]
   \<and> length (messages (AlmaPage t)) = 1
   \<and> role (hd (messages (AlmaPage t))) = assistant
   \<and> isTyping (AlmaPage t) = False"
  by (simp add: AlmaPage_def)

subsection \<open>Claim C10\<close>

text \<open>
  Claim C10. For every double \<open>r\<close> with \<open>0 \<le> r < 1\<close> the index
  \<^verbatim>\<open>Math.floor(r * 5)\<close> lies within \<open>0..4\<close>, the bounds of the array of five responses:
  the lookup is defined, and the generator returns the selected template followed by the
  closing sentence, never the \<^verbatim>\<open>undefined\<close> branch.
\<close>

theorem template_index_in_bounds:
  assumes "is_double r" and "0 \<le> r" and "r < 1"
  shows "length (responses s) = 5
       \<and> 0 \<le> random_index r (length (responses s))
       \<and> random_index r (length (responses s)) \<le> 4
       \<and> array_get (responses s) (random_index r (length (responses s)))
           = Some (responses s ! nat (random_index r (length (responses s))))
       \<and> generateAlmaResponse r s
           = responses s ! nat (random_index r (length (responses s))) @ closing"
proof -
  from random_index_5 [OF assms] have i: "0 \<le> random_index r 5" "random_index r 5 < 5"
    by simp_all
  with generateAlmaResponse_nth [OF i, of s] show ?thesis
    by (simp add: length_responses array_get_def)
qed

text \<open>The same at the draw \<open>1 / 4\<close>, which selects index 1.\<close>

theorem template_index_in_bounds_witness:
  "is_double (1 / 4) \<and> (0::rat) \<le> 1 / 4 \<and> (1 / 4 :: rat) < 1
   \<and> random_index (1 / 4) (length (responses (lit ''hola''))) \<le> 4
   \<and> array_get (responses (lit ''hola'')) (random_index (1 / 4) (length (responses (lit ''hola''))))
       = Some (responses (lit ''hola'') ! nat (random_index (1 / 4) (length (responses (lit ''hola'')))))"
proof -
  have n: "(0::rat) \<le> 1 / 4" and l: "(1 / 4 :: rat) < 1" by simp_all
  from template_index_in_bounds [OF is_double_quarter n l, of "lit ''hola''"] is_double_quarter n l
  show ?thesis by blast
qed

end
